theory Spec2Isabelle
  imports Main "HOL-Library.Word"
begin

unbundle bit_operations_syntax

section \<open>jsonrpc-fsproxy: the tail-and-forward engine\<close>

text \<open>
  The repository holds two variants of one engine. \<open>FSProxy\<close> (pkg/jsonrpc/fsproxy.go)
  watches the input file through fsnotify events; \<open>Proxy\<close> (package jsonrpcfile) polls
  the size of the input file. Both read new lines with a \<open>bufio.Scanner\<close>, post each
  line to the RPC endpoint and append the response body to the output file.

  Bytes are \<open>char\<close>s, a Go string or byte slice is a \<open>string\<close>.
\<close>

subsection \<open>Errors and log entries\<close>

text \<open>
  A Go \<open>error\<close> value. \<open>Wrapf m e\<close> is \<open>fmt.Errorf(m + ": %w", e)\<close>, \<open>PathError\<close> is
  \<open>*os.PathError\<close>, \<open>ErrClosed\<close> is \<open>os.ErrClosed\<close>, \<open>ErrTooLong\<close> is
  \<open>bufio.ErrTooLong\<close>, and \<open>OSError\<close> is any other error of the operating system or
  of a library, with its message.
\<close>

datatype error =
    ErrClosed
  | ErrTooLong
  | OSError string
  | PathError string string error
  | Wrapf string error

datatype level = Info | Warn | Error

text \<open>The zap field attached to a log entry.\<close>

datatype field =
    FString string string
  | FByteString string string
  | FError "error option"

type_synonym entry = "level \<times> string \<times> field"

subsection \<open>File handles and Close\<close>

text \<open>
  An \<open>*os.File\<close>: its path and whether \<open>Close\<close> has already been called on it.
  \<open>os.File.Close\<close> returns an error if it has already been called: the handle is
  closing, which the \<open>os\<close> package reports as \<open>os.ErrClosed\<close> inside a \<open>*PathError\<close>.
  Otherwise the descriptor is released and the result is what the operating system
  answers (\<open>oserr\<close>).
\<close>

record os_file =
  name :: string
  closed :: bool

definition File_Close :: "os_file \<Rightarrow> error option \<Rightarrow> os_file \<times> error option" where
  "File_Close f oserr =
     (if closed f then (f, Some (PathError ''close'' (name f) ErrClosed))
      else (f\<lparr>closed := True\<rparr>,
            case oserr of None \<Rightarrow> None | Some e \<Rightarrow> Some (PathError ''close'' (name f) e)))"

text \<open>
  An \<open>*fsnotify.Watcher\<close>: \<open>Close\<close> on a closed watcher returns \<open>nil\<close>.
\<close>

record fs_watcher =
  wclosed :: bool

definition Watcher_Close :: "fs_watcher \<Rightarrow> error option \<Rightarrow> fs_watcher \<times> error option" where
  "Watcher_Close w oserr =
     (if wclosed w then (w, None) else (w\<lparr>wclosed := True\<rparr>, oserr))"

text \<open>The handles an \<open>FSProxy\<close> owns (the \<open>Proxy\<close> variant has no watcher).\<close>

record handles =
  inputFile :: os_file
  outputFile :: os_file
  watcher :: fs_watcher

text \<open>What the operating system answers to the three releases of one \<open>Close\<close> call.\<close>

record close_env =
  in_err :: "error option"
  out_err :: "error option"
  watch_err :: "error option"

text \<open>
  \<open>FSProxy.Close\<close>: close the input file, the output file and the watcher in this
  order, returning at the first error.
\<close>

definition Close :: "handles \<Rightarrow> close_env \<Rightarrow> handles \<times> error option" where
  "Close w env =
     (case File_Close (inputFile w) (in_err env) of
        (f, Some e) \<Rightarrow> (w\<lparr>inputFile := f\<rparr>, Some (Wrapf ''close input file'' e))
      | (f, None) \<Rightarrow>
          (case File_Close (outputFile w) (out_err env) of
             (g, Some e) \<Rightarrow>
               (w\<lparr>inputFile := f, outputFile := g\<rparr>, Some (Wrapf ''close output file'' e))
           | (g, None) \<Rightarrow>
               (case Watcher_Close (watcher w) (watch_err env) of
                  (v, Some e) \<Rightarrow>
                    (w\<lparr>inputFile := f, outputFile := g, watcher := v\<rparr>,
                     Some (Wrapf ''close watcher'' e))
                | (v, None) \<Rightarrow>
                    (w\<lparr>inputFile := f, outputFile := g, watcher := v\<rparr>, None))))"

text \<open>
  \<open>Proxy.closeFiles\<close>: close both files, log each failure, return nothing.
\<close>

definition closeFiles :: "handles \<Rightarrow> close_env \<Rightarrow> handles \<times> entry list" where
  "closeFiles w env =
     (let (f, e1) = File_Close (inputFile w) (in_err env);
          (g, e2) = File_Close (outputFile w) (out_err env)
      in (w\<lparr>inputFile := f, outputFile := g\<rparr>,
          (case e1 of None \<Rightarrow> []
           | Some e \<Rightarrow> [(Error, ''Failed to close input file'', FError (Some e))]) @
          (case e2 of None \<Rightarrow> []
           | Some e \<Rightarrow> [(Error, ''Failed to close output file'', FError (Some e))])))"

text \<open>A proxy right after construction, and an operating system that never fails.\<close>

definition open_handles :: "string \<Rightarrow> string \<Rightarrow> handles" where
  "open_handles inp outp =
     \<lparr>inputFile = \<lparr>name = inp, closed = False\<rparr>,
      outputFile = \<lparr>name = outp, closed = False\<rparr>,
      watcher = \<lparr>wclosed = False\<rparr>\<rparr>"

definition no_errors :: close_env where
  "no_errors = \<lparr>in_err = None, out_err = None, watch_err = None\<rparr>"

subsection \<open>The line scanner\<close>

text \<open>
  \<open>bufio.Scanner\<close> with the default split function \<open>bufio.ScanLines\<close>, as the Go
  standard library defines it. A token is a line without its terminator \<open>\n\<close>, with
  one trailing \<open>\r\<close> dropped (\<open>dropCR\<close>). The buffer holds at most \<open>maxTokenSize\<close>
  bytes (\<open>bufio.MaxScanTokenSize\<close>, 64 KiB, for \<open>bufio.NewScanner\<close>): when it is full
  and holds no terminator, \<open>Scan\<close> fails with \<open>ErrTooLong\<close>. When the reader stops,
  at end of file or with a read error, the split function is called with \<open>atEOF\<close> set
  and the unterminated rest of the buffer, if not empty, is the last token.
\<close>

definition MaxScanTokenSize :: nat where
  "MaxScanTokenSize = 64 * 1024"

definition dropCR :: "string \<Rightarrow> string" where
  "dropCR d = (if d \<noteq> [] \<and> last d = CHR 0x0D then butlast d else d)"

text \<open>
  \<open>scan_bytes m fin acc d\<close>: the tokens of all \<open>Scan\<close> calls that return true, the
  final \<open>Err()\<close> and the bytes of the reader that were never read into the buffer.
  \<open>acc\<close> is the part of the current line already in the buffer, \<open>d\<close> what the reader
  delivers from there on, \<open>fin\<close> the error the reader ends with (\<open>None\<close> for
  \<open>io.EOF\<close>, which \<open>Err()\<close> reports as \<open>nil\<close>).
\<close>

fun scan_bytes ::
  "nat \<Rightarrow> error option \<Rightarrow> string \<Rightarrow> string \<Rightarrow> string list \<times> error option \<times> string" where
  "scan_bytes m fin acc [] = (if acc = [] then [] else [dropCR acc], fin, [])"
| "scan_bytes m fin acc (c # cs) =
     (if c = CHR 0x0A then
        (case scan_bytes m fin [] cs of (ts, e, u) \<Rightarrow> (dropCR acc # ts, e, u))
      else if m \<le> length acc + 1 then ([], Some ErrTooLong, cs)
      else scan_bytes m fin (acc @ [c]) cs)"

text \<open>
  What the reads of one scan meet: the end of the file, or a read error after \<open>k\<close>
  bytes were read.
\<close>

datatype read_outcome = ReadEOF | ReadFail nat error

fun Scanner_scan ::
  "nat \<Rightarrow> string \<Rightarrow> read_outcome \<Rightarrow> string list \<times> error option \<times> string" where
  "Scanner_scan m d ReadEOF = scan_bytes m None [] d"
| "Scanner_scan m d (ReadFail k e) =
     (case scan_bytes m (Some e) [] (take k d) of (ts, er, u) \<Rightarrow> (ts, er, u @ drop k d))"

subsection \<open>Goroutines and the state of one run\<close>

text \<open>
  One \<open>Run\<close> starts the goroutine of \<open>watchInput\<close>, the goroutine of \<open>processLines\<close>,
  one goroutine that waits for the \<open>sync.WaitGroup\<close>, and (in \<open>FSProxy\<close>) one goroutine
  for every line. Each goroutine is a program counter; a step of the system is one
  statement of one goroutine, or one move of the environment. The channels
  \<open>lineStream\<close>, \<open>errorStream\<close> and \<open>waitStream\<close> are unbuffered: a send and its
  receive are one step, enabled when the sender is at the send and the receiver at the
  receive.
\<close>

datatype variant = EventDriven | Polling

text \<open>\<open>Run\<close>: the three calls that start the goroutines, the \<open>select\<close>, the deferred
  \<open>closeFiles\<close> of \<open>Proxy.Run\<close>, and the return with the result.\<close>

datatype run_pc =
    R_Start
  | R_Watched
  | R_Dispatched
  | R_Select
  | R_Deferred "error option"
  | R_Returned "error option"

text \<open>
  The goroutine of \<open>watchInput\<close>. \<open>W_Seek\<close>, \<open>W_Select\<close> and \<open>W_Lock\<close> are the initial
  seek, the \<open>select\<close> and the wait for the lock marker of \<open>FSProxy\<close>; \<open>P_Stat\<close>,
  \<open>P_Wait\<close> and \<open>P_Seek\<close> are the \<open>os.Stat\<close>, the \<open>select\<close> on the timer and the seek
  of \<open>Proxy\<close>. \<open>W_Scan\<close> is the creation of the scanner, \<open>W_Send ls\<close> the loop over
  its tokens with \<open>ls\<close> still to send, \<open>W_SendErr e\<close> the send of \<open>e\<close> on
  \<open>errorStream\<close>; \<open>W_Close\<close> and \<open>W_WgDone\<close> are the two deferred calls.
\<close>

datatype watch_pc =
    W_Idle
  | W_Seek
  | W_Select
  | W_Lock
  | P_Stat
  | P_Wait
  | P_Seek nat
  | W_Scan
  | W_Send "string list"
  | W_SendErr error
  | W_Close
  | W_WgDone
  | W_Done

text \<open>
  The goroutine of \<open>processLines\<close>: the \<open>select\<close>, \<open>wg.Add(1)\<close> for the line received,
  the start of the unit of work, the synchronous call of \<open>Proxy\<close> (\<open>D_Call\<close>), the
  deferred \<open>wg.Done()\<close>.
\<close>

datatype disp_pc =
    D_Idle
  | D_Select
  | D_Add string
  | D_Go string
  | D_Call
  | D_WgDone
  | D_Done

text \<open>
  One unit of work, \<open>processLine\<close> inside its closure: \<open>http.Post\<close>, \<open>ioutil.ReadAll\<close>,
  \<open>outputFileMutex.Lock()\<close> with the body read, \<open>outputFile.Write\<close> with the body and
  the number of bytes already written, the deferred \<open>Unlock\<close>, the deferred
  \<open>resp.Body.Close()\<close>, the deferred \<open>wg.Done()\<close> of the closure.
\<close>

datatype unit_pc =
    U_Post
  | U_ReadAll
  | U_Lock string
  | U_Write string nat
  | U_Unlock
  | U_CloseBody
  | U_WgDone
  | U_Done

datatype wait_pc = Wt_Idle | Wt_Wait | Wt_Send | Wt_Done

text \<open>The request \<open>http.Post(url, contentType, body)\<close> issues.\<close>

record request =
  http_method :: string
  url :: string
  content_type :: string
  body :: string

text \<open>\<open>fsnotify.Op\<close> is a \<open>uint32\<close> bit mask.\<close>

definition fsnotify_Write :: "32 word" where
  "fsnotify_Write = 2"

definition StatusOK :: int where
  "StatusOK = 200"

record state =
  variant :: variant
  rpcURL :: string
  ctx_done :: bool
  wg :: int
  run :: run_pc
  watch :: watch_pc
  disp :: disp_pc
  waiter :: wait_pc
  units :: "(string \<times> unit_pc) list"
  outputFileMutex :: bool
  lineStream_closed :: bool
  files :: handles
  infile :: string
  cursor :: nat
  size_seen :: nat
  events :: "32 word list"
  events_closed :: bool
  out :: string
  logs :: "entry list"
  sent :: "request list"

text \<open>
  The state \<open>Run\<close> starts in: the proxy as \<open>NewFSProxy\<close> or \<open>NewProxy\<close> built it, the
  input file holding \<open>inp\<close> and the output file holding \<open>outp\<close>.
\<close>

definition init_state :: "variant \<Rightarrow> string \<Rightarrow> string \<Rightarrow> string \<Rightarrow> state" where
  "init_state v u inp outp =
     \<lparr>variant = v, rpcURL = u, ctx_done = False, wg = 0, run = R_Start, watch = W_Idle,
      disp = D_Idle, waiter = Wt_Idle, units = [], outputFileMutex = False,
      lineStream_closed = False, files = open_handles ''rpcin'' ''rpcout'',
      infile = inp, cursor = 0, size_seen = 0, events = [], events_closed = False,
      out = outp, logs = [], sent = []\<rparr>"

text \<open>The program counter of unit \<open>i\<close>, and its update.\<close>

definition upc :: "state \<Rightarrow> nat \<Rightarrow> unit_pc option" where
  "upc s i = (if i < length (units s) then Some (snd (units s ! i)) else None)"

definition set_upc :: "nat \<Rightarrow> unit_pc \<Rightarrow> state \<Rightarrow> state" where
  "set_upc i pc s = s\<lparr>units := (units s)[i := (fst (units s ! i), pc)]\<rparr>"

definition add_log :: "entry \<Rightarrow> state \<Rightarrow> state" where
  "add_log e s = s\<lparr>logs := logs s @ [e]\<rparr>"

text \<open>Where the loop of \<open>watchInput\<close> starts over.\<close>

definition loop_head :: "variant \<Rightarrow> watch_pc" where
  "loop_head v = (case v of EventDriven \<Rightarrow> W_Select | Polling \<Rightarrow> P_Stat)"

subsection \<open>Steps\<close>

text \<open>What \<open>http.Post\<close> returns: a transport error, or a response with its status.\<close>

datatype post_result = PostErr error | PostResp int

text \<open>
  The steps of the system. Those of the environment: the context is cancelled; an
  external writer appends bytes to the input file (fsnotify then queues a write event);
  fsnotify queues another event; the channels of the watcher are closed. Every other
  step is one statement of one goroutine, with what the operating system or the
  network answers to it as an argument.
\<close>

datatype action =
    Cancel
  | Append string
  | Notify "32 word"
  | CloseWatcher
  | RunWatch
  | RunProc
  | RunWaiter
  | RunRecvWait
  | RunRecvErr
  | RunCloseFiles close_env
  | WSeek "error option"
  | WCancel
  | WEvent
  | WEventsClosed
  | WError error
  | WErrorsClosed
  | WLock bool
  | WStat "error option"
  | WTick
  | WSeekTo "error option"
  | WScan read_outcome
  | WScanEnd
  | WClose
  | WWgDone
  | Handoff
  | DCancel
  | DClosed
  | DAdd
  | DGo
  | DWgDone
  | UPost nat post_result
  | URead nat "error + string"
  | ULock nat
  | UWrite nat nat
  | UWriteFail nat error
  | UUnlock nat
  | UCloseBody nat "error option"
  | UWgDone nat
  | WtWait

text \<open>\<open>Run\<close> hands its result to the deferred \<open>closeFiles\<close> in \<open>Proxy\<close>, to the caller
  in \<open>FSProxy\<close>.\<close>

definition ret :: "variant \<Rightarrow> error option \<Rightarrow> run_pc" where
  "ret v r = (case v of EventDriven \<Rightarrow> R_Returned r | Polling \<Rightarrow> R_Deferred r)"

text \<open>
  One step. From top to bottom: the environment; \<open>Run\<close> (\<open>RunWatch\<close> and \<open>RunProc\<close> are
  the calls of \<open>watchInput\<close> and \<open>processLines\<close>, that is \<open>wg.Add(1)\<close> and the \<open>go\<close>
  statement, \<open>RunWaiter\<close> starts the goroutine that waits for the wait group,
  \<open>RunRecvWait\<close> and \<open>RunRecvErr\<close> are the two cases of the \<open>select\<close>); the goroutine
  that waits (\<open>wg.Wait()\<close> returns when the counter is zero); \<open>watchInput\<close> of
  \<open>FSProxy\<close>, then of \<open>Proxy\<close>, then the scan and the deferred calls they share;
  \<open>Handoff\<close>, the send of a line on \<open>lineStream\<close> and its receive in \<open>processLines\<close>;
  \<open>processLines\<close>; \<open>processLine\<close>.
\<close>

fun step :: "action \<Rightarrow> state \<Rightarrow> state option" where
  "step Cancel s = Some (s\<lparr>ctx_done := True\<rparr>)"
| "step (Append bs) s =
     Some (s\<lparr>infile := infile s @ bs,
              events := (if variant s = EventDriven then events s @ [fsnotify_Write]
                         else events s)\<rparr>)"
| "step (Notify ev) s =
     (if variant s = EventDriven then Some (s\<lparr>events := events s @ [ev]\<rparr>) else None)"
| "step CloseWatcher s = Some (s\<lparr>events_closed := True\<rparr>)"

| "step RunWatch s =
     (if run s = R_Start
      then Some (s\<lparr>wg := wg s + 1,
                   watch := (case variant s of EventDriven \<Rightarrow> W_Seek | Polling \<Rightarrow> P_Stat),
                   run := R_Watched\<rparr>)
      else None)"
| "step RunProc s =
     (if run s = R_Watched
      then Some (s\<lparr>wg := wg s + 1, disp := D_Select, run := R_Dispatched\<rparr>)
      else None)"
| "step RunWaiter s =
     (if run s = R_Dispatched then Some (s\<lparr>waiter := Wt_Wait, run := R_Select\<rparr>) else None)"
| "step RunRecvWait s =
     (if run s = R_Select \<and> waiter s = Wt_Send
      then Some (s\<lparr>waiter := Wt_Done, run := ret (variant s) None\<rparr>)
      else None)"
| "step RunRecvErr s =
     (if run s = R_Select
      then (case watch s of
              W_SendErr e \<Rightarrow> Some (s\<lparr>watch := W_Close, run := ret (variant s) (Some e)\<rparr>)
            | _ \<Rightarrow> None)
      else None)"
| "step (RunCloseFiles env) s =
     (case run s of
        R_Deferred r \<Rightarrow>
          (case closeFiles (files s) env of
             (h, es) \<Rightarrow> Some (s\<lparr>files := h, logs := logs s @ es, run := R_Returned r\<rparr>))
      | _ \<Rightarrow> None)"

| "step WtWait s =
     (if waiter s = Wt_Wait \<and> wg s = 0 then Some (s\<lparr>waiter := Wt_Send\<rparr>) else None)"

| "step (WSeek eo) s =
     (if watch s = W_Seek
      then (case eo of
              Some e \<Rightarrow> Some (s\<lparr>watch := W_SendErr (Wrapf ''seek input'' e)\<rparr>)
            | None \<Rightarrow> Some (s\<lparr>cursor := length (infile s), watch := W_Select\<rparr>))
      else None)"
| "step WCancel s =
     (if ctx_done s
      then (case watch s of
              W_Select \<Rightarrow> Some (s\<lparr>watch := W_Close\<rparr>)
            | P_Wait \<Rightarrow> Some (s\<lparr>watch := W_Close\<rparr>)
            | _ \<Rightarrow> None)
      else None)"
| "step WEvent s =
     (if watch s = W_Select
      then (case events s of
              [] \<Rightarrow> None
            | ev # rest \<Rightarrow>
                Some (s\<lparr>events := rest,
                         watch := (if ev AND fsnotify_Write = fsnotify_Write
                                   then W_Lock else W_Select)\<rparr>))
      else None)"
| "step WEventsClosed s =
     (if watch s = W_Select \<and> events_closed s \<and> events s = []
      then Some (s\<lparr>watch := W_Close\<rparr>) else None)"
| "step (WError e) s =
     (if watch s = W_Select
      then Some (s\<lparr>watch := W_SendErr (Wrapf ''watcher errors'' e)\<rparr>) else None)"
| "step WErrorsClosed s =
     (if watch s = W_Select \<and> events_closed s then Some (s\<lparr>watch := W_Close\<rparr>) else None)"
| "step (WLock present) s =
     (if watch s = W_Lock
      then Some (s\<lparr>watch := (if present then W_Lock else W_Scan)\<rparr>) else None)"

| "step (WStat eo) s =
     (if watch s = P_Stat
      then (case eo of
              Some e \<Rightarrow> Some (s\<lparr>watch := W_SendErr (Wrapf ''os stat input'' e)\<rparr>)
            | None \<Rightarrow>
                (if size_seen s = length (infile s) then Some (s\<lparr>watch := P_Wait\<rparr>)
                 else if size_seen s = 0 then Some (s\<lparr>watch := P_Seek (length (infile s))\<rparr>)
                 else Some (s\<lparr>size_seen := length (infile s), watch := W_Scan\<rparr>)))
      else None)"
| "step WTick s = (if watch s = P_Wait then Some (s\<lparr>watch := P_Stat\<rparr>) else None)"
| "step (WSeekTo eo) s =
     (case watch s of
        P_Seek sz \<Rightarrow>
          (case eo of
             Some e \<Rightarrow> Some (s\<lparr>watch := W_SendErr (Wrapf ''seek input'' e)\<rparr>)
           | None \<Rightarrow> Some (s\<lparr>cursor := sz, size_seen := sz, watch := W_Scan\<rparr>))
      | _ \<Rightarrow> None)"

| "step (WScan rd) s =
     (if watch s = W_Scan
      then (case Scanner_scan MaxScanTokenSize (drop (cursor s) (infile s)) rd of
              (ts, e, u) \<Rightarrow>
                Some (s\<lparr>cursor := length (infile s) - length u, watch := W_Send ts\<rparr>))
      else None)"
| "step WScanEnd s =
     (if watch s = W_Send [] then Some (s\<lparr>watch := loop_head (variant s)\<rparr>) else None)"
| "step WClose s =
     (if watch s = W_Close
      then Some (s\<lparr>lineStream_closed := True, watch := W_WgDone\<rparr>) else None)"
| "step WWgDone s =
     (if watch s = W_WgDone then Some (s\<lparr>wg := wg s - 1, watch := W_Done\<rparr>) else None)"

| "step Handoff s =
     (case watch s of
        W_Send (l # ls) \<Rightarrow>
          (if disp s = D_Select
           then Some (s\<lparr>watch := W_Send ls, disp := D_Add l,
                        logs := logs s @
                          [(Info,
                            (case variant s of EventDriven \<Rightarrow> ''Got new line''
                             | Polling \<Rightarrow> ''Sent new line''),
                            FString ''line'' l)]\<rparr>)
           else None)
      | _ \<Rightarrow> None)"

| "step DCancel s =
     (if disp s = D_Select \<and> ctx_done s then Some (s\<lparr>disp := D_WgDone\<rparr>) else None)"
| "step DClosed s =
     (if disp s = D_Select \<and> lineStream_closed s then Some (s\<lparr>disp := D_WgDone\<rparr>)
      else None)"
| "step DAdd s =
     (case disp s of
        D_Add l \<Rightarrow> Some (s\<lparr>wg := wg s + 1, disp := D_Go l\<rparr>)
      | _ \<Rightarrow> None)"
| "step DGo s =
     (case disp s of
        D_Go l \<Rightarrow>
          Some (s\<lparr>units := units s @ [(l, U_Post)],
                   disp := (case variant s of EventDriven \<Rightarrow> D_Select | Polling \<Rightarrow> D_Call)\<rparr>)
      | _ \<Rightarrow> None)"
| "step DWgDone s =
     (if disp s = D_WgDone then Some (s\<lparr>wg := wg s - 1, disp := D_Done\<rparr>) else None)"

| "step (UPost i r) s =
     (case upc s i of
        Some U_Post \<Rightarrow>
          (let s1 = s\<lparr>sent := sent s @
                        [\<lparr>http_method = ''POST'', url = rpcURL s,
                          content_type = ''Content-Type: application/json'',
                          body = fst (units s ! i)\<rparr>]\<rparr>
           in case r of
                PostErr e \<Rightarrow>
                  Some (set_upc i U_WgDone
                          (add_log (Error, ''Failed to send request'', FError (Some e)) s1))
              | PostResp st \<Rightarrow>
                  (if st \<noteq> StatusOK
                   then Some (set_upc i U_CloseBody
                                (add_log (Error, ''Response status code not OK'', FError None)
                                   s1))
                   else Some (set_upc i U_ReadAll s1)))
      | _ \<Rightarrow> None)"
| "step (URead i r) s =
     (case upc s i of
        Some U_ReadAll \<Rightarrow>
          (case r of
             Inl e \<Rightarrow>
               Some (set_upc i U_CloseBody
                       (add_log (Error, ''Failed to read response body'', FError (Some e)) s))
           | Inr b \<Rightarrow>
               Some (set_upc i (U_Lock b)
                       (add_log (Info, ''Got response'', FByteString ''response'' b) s)))
      | _ \<Rightarrow> None)"
| "step (ULock i) s =
     (case upc s i of
        Some (U_Lock b) \<Rightarrow>
          (if outputFileMutex s then None
           else Some (set_upc i (U_Write b 0) (s\<lparr>outputFileMutex := True\<rparr>)))
      | _ \<Rightarrow> None)"
| "step (UWrite i n) s =
     (case upc s i of
        Some (U_Write b k) \<Rightarrow>
          (if \<not> closed (outputFile (files s)) \<and> k + n \<le> length b \<and> (0 < n \<or> k = length b)
           then Some (set_upc i (if k + n = length b then U_Unlock else U_Write b (k + n))
                        (s\<lparr>out := out s @ take n (drop k b)\<rparr>))
           else None)
      | _ \<Rightarrow> None)"
| "step (UWriteFail i e) s =
     (case upc s i of
        Some (U_Write b k) \<Rightarrow>
          Some (set_upc i U_Unlock
                  (add_log (Error, ''Failed to write response'', FError (Some e)) s))
      | _ \<Rightarrow> None)"
| "step (UUnlock i) s =
     (case upc s i of
        Some U_Unlock \<Rightarrow> Some (set_upc i U_CloseBody (s\<lparr>outputFileMutex := False\<rparr>))
      | _ \<Rightarrow> None)"
| "step (UCloseBody i eo) s =
     (case upc s i of
        Some U_CloseBody \<Rightarrow>
          (case eo of
             None \<Rightarrow> Some (set_upc i U_WgDone s)
           | Some e \<Rightarrow>
               Some (set_upc i U_WgDone
                       (add_log (Warn,
                                 (case variant s of
                                    EventDriven \<Rightarrow> ''Failed to Close response body''
                                  | Polling \<Rightarrow> ''Failed to close response body''),
                                 FError (Some e)) s)))
      | _ \<Rightarrow> None)"
| "step (UWgDone i) s =
     (case upc s i of
        Some U_WgDone \<Rightarrow>
          Some (set_upc i U_Done
                  (s\<lparr>wg := wg s - 1,
                     disp := (if disp s = D_Call then D_Select else disp s)\<rparr>))
      | _ \<Rightarrow> None)"

text \<open>A run of the system: the steps of a schedule, one after the other.\<close>

fun exec :: "action list \<Rightarrow> state \<Rightarrow> state option" where
  "exec [] s = Some s"
| "exec (a # as) s = (case step a s of None \<Rightarrow> None | Some s' \<Rightarrow> exec as s')"

text \<open>The result \<open>Run\<close> has chosen, if it has.\<close>

fun result_of :: "run_pc \<Rightarrow> error option option" where
  "result_of (R_Deferred r) = Some r"
| "result_of (R_Returned r) = Some r"
| "result_of _ = None"

definition outcome :: "state \<Rightarrow> error option option" where
  "outcome s = result_of (run s)"

subsection \<open>The wait group counts the goroutines at work\<close>

text \<open>
  The units of work that have not yet called \<open>wg.Done()\<close>, and the number of goroutines
  registered with the wait group: the goroutine of \<open>watchInput\<close>, the goroutine of
  \<open>processLines\<close> (twice between its \<open>wg.Add(1)\<close> and the start of the unit) and the
  units at work.
\<close>

definition busy :: "(string \<times> unit_pc) list \<Rightarrow> nat" where
  "busy us = length (filter (\<lambda>u. snd u \<noteq> U_Done) us)"

fun wlive :: "watch_pc \<Rightarrow> nat" where
  "wlive W_Idle = 0"
| "wlive W_Done = 0"
| "wlive _ = 1"

fun dlive :: "disp_pc \<Rightarrow> nat" where
  "dlive D_Idle = 0"
| "dlive D_Done = 0"
| "dlive (D_Go l) = 2"
| "dlive _ = 1"

definition live :: "state \<Rightarrow> nat" where
  "live s = wlive (watch s) + dlive (disp s) + busy (units s)"

fun run_rank :: "run_pc \<Rightarrow> nat" where
  "run_rank R_Start = 0"
| "run_rank R_Watched = 1"
| "run_rank R_Dispatched = 2"
| "run_rank _ = 3"

definition wg_inv :: "state \<Rightarrow> bool" where
  "wg_inv s \<longleftrightarrow>
     wg s = int (live s) \<and>
     (watch s = W_Idle) = (run_rank (run s) < 1) \<and>
     (disp s = D_Idle) = (run_rank (run s) < 2) \<and>
     (waiter s = Wt_Idle) = (run_rank (run s) < 3) \<and>
     (waiter s = Wt_Send \<or> waiter s = Wt_Done \<longrightarrow> wg s = 0) \<and>
     (result_of (run s) = Some None \<longrightarrow> waiter s = Wt_Done)"

subsection \<open>Failures of a unit of work\<close>

text \<open>The unit of work a step belongs to, if it is a step of \<open>processLine\<close>.\<close>

fun unit_of :: "action \<Rightarrow> nat option" where
  "unit_of (UPost i r) = Some i"
| "unit_of (URead i r) = Some i"
| "unit_of (ULock i) = Some i"
| "unit_of (UWrite i n) = Some i"
| "unit_of (UWriteFail i e) = Some i"
| "unit_of (UUnlock i) = Some i"
| "unit_of (UCloseBody i eo) = Some i"
| "unit_of (UWgDone i) = Some i"
| "unit_of _ = None"

text \<open>
  The four failures of a unit of work: the transport fails, the status is not 200,
  reading the body fails, writing to the output file fails.
\<close>

fun unit_failure :: "action \<Rightarrow> bool" where
  "unit_failure (UPost i (PostErr e)) = True"
| "unit_failure (UPost i (PostResp st)) = (st \<noteq> StatusOK)"
| "unit_failure (URead i (Inl e)) = True"
| "unit_failure (UWriteFail i e) = True"
| "unit_failure _ = False"

text \<open>The statements left to a unit of work on its way out, none of which can block.\<close>

fun leave :: "nat \<Rightarrow> unit_pc \<Rightarrow> action list" where
  "leave i U_Unlock = [UUnlock i, UCloseBody i None, UWgDone i]"
| "leave i U_CloseBody = [UCloseBody i None, UWgDone i]"
| "leave i U_WgDone = [UWgDone i]"
| "leave i _ = []"

subsection \<open>The output file and its mutex\<close>

text \<open>
  The part of \<open>NewFSProxy\<close> and \<open>NewProxy\<close> that opens the output file: \<open>os.Create\<close> when
  \<open>os.Stat\<close> finds no file, \<open>os.OpenFile\<close> with \<open>O_APPEND|O_WRONLY\<close> otherwise. The
  result is the content of the file once opened and whether the handle appends.
\<close>

definition NewFSProxy_output :: "string option \<Rightarrow> error option \<Rightarrow> error + string \<times> bool" where
  "NewFSProxy_output existing oserr =
     (case existing of
        None \<Rightarrow>
          (case oserr of
             Some e \<Rightarrow> Inl (Wrapf ''create output file'' e)
           | None \<Rightarrow> Inr ([], False))
      | Some c \<Rightarrow>
          (case oserr of
             Some e \<Rightarrow> Inl (Wrapf ''open output file'' e)
           | None \<Rightarrow> Inr (c, True)))"

text \<open>
  A unit of work holds the mutex from its \<open>Lock\<close> to its deferred \<open>Unlock\<close>. The mutex
  is locked exactly when one unit holds it, and the bytes a unit has written so far
  are the end of the output file.
\<close>

fun holding :: "unit_pc \<Rightarrow> bool" where
  "holding (U_Write b k) = True"
| "holding U_Unlock = True"
| "holding _ = False"

definition holders :: "(string \<times> unit_pc) list \<Rightarrow> nat" where
  "holders us = length (filter (\<lambda>u. holding (snd u)) us)"

definition mutex_inv :: "state \<Rightarrow> bool" where
  "mutex_inv s \<longleftrightarrow> holders (units s) = (if outputFileMutex s then 1 else 0)"



subsection \<open>Schedules\<close>


text \<open>One line is appended, scanned and dispatched: its unit of work is in flight.\<close>

definition dispatch_schedule :: "action list" where
  "dispatch_schedule =
     [RunWatch, RunProc, RunWaiter, WSeek None, Append (''a'' @ [CHR 0x0A]), WEvent,
      WLock False, WScan ReadEOF, Handoff, DAdd, DGo, WScanEnd]"

text \<open>Then the context is cancelled, the watcher reports an error and \<open>Run\<close> receives
  it.\<close>

definition fatal_schedule :: "action list" where
  "fatal_schedule =
     dispatch_schedule @ [Cancel, WError (OSError ''inotify''), RunRecvErr]"

text \<open>Or, after the cancellation, no error: both goroutines leave, the unit of work
  fails to reach the endpoint, and everything drains.\<close>

definition cancel_schedule :: "action list" where
  "cancel_schedule =
     [WCancel, WClose, WWgDone, DCancel, DWgDone, UPost 0 (PostErr (OSError ''refused'')),
      UWgDone 0, WtWait, RunRecvWait]"


section \<open>The wait group\<close>

lemma busy_append [simp]: "busy (us @ vs) = busy us + busy vs"
  by (simp add: busy_def)

lemma busy_single [simp]: "busy [(l, pc)] = (if pc = U_Done then 0 else 1)"
  by (simp add: busy_def)

lemma busy_Cons: "busy (u # vs) = (if snd u = U_Done then 0 else 1) + busy vs"
  by (simp add: busy_def)

lemma busy_update:
  "i < length us \<Longrightarrow>
   busy (us[i := (x, pc)]) + (if snd (us ! i) = U_Done then 0 else 1)
     = busy us + (if pc = U_Done then 0 else 1)"
proof (induction us arbitrary: i)
  case Nil then show ?case by simp
next
  case (Cons u us)
  show ?case
  proof (cases i)
    case 0 then show ?thesis by (simp add: busy_def)
  next
    case (Suc j)
    with Cons.prems have "j < length us" by simp
    from Cons.IH [OF this] have
      "busy (us[j := (x, pc)]) + (if snd (us ! j) = U_Done then 0 else 1)
         = busy us + (if pc = U_Done then 0 else 1)" .
    then show ?thesis using Suc by (simp add: busy_Cons)
  qed
qed

lemma busy_keep:
  assumes "i < length us" "snd (us ! i) \<noteq> U_Done" "pc \<noteq> U_Done"
  shows "busy (us[i := (x, pc)]) = busy us"
proof -
  from busy_update [OF assms(1), of x pc] assms(2,3)
  have "busy (us[i := (x, pc)]) + 1 = busy us + 1" by (simp only: if_False)
  then show ?thesis by (simp only: add_right_cancel)
qed

lemma busy_done:
  assumes "i < length us" "snd (us ! i) \<noteq> U_Done"
  shows "int (busy (us[i := (x, U_Done)])) = int (busy us) - 1"
proof -
  from busy_update [OF assms(1), of x U_Done] assms(2)
  have "busy (us[i := (x, U_Done)]) + 1 = busy us + 0" by (simp only: if_False if_True refl)
  then show ?thesis by linarith
qed

lemma wg_inv_init: "wg_inv (init_state v u inp outp)"
  by (simp add: wg_inv_def live_def init_state_def busy_def)

lemma upc_SomeD: "upc s i = Some pc \<Longrightarrow> i < length (units s) \<and> snd (units s ! i) = pc"
  by (auto simp: upc_def split: if_splits)

lemma busy_pos: "i < length us \<Longrightarrow> snd (us ! i) \<noteq> U_Done \<Longrightarrow> 0 < busy us"
  using busy_update [of i us undefined U_Done] by simp

lemma UWgDone_busy:
  assumes "step (UWgDone i) s = Some s'"
  shows "0 < busy (units s)"
proof -
  from assms have "upc s i = Some U_WgDone"
    by (simp split: option.splits unit_pc.splits)
  then have "i < length (units s)" "snd (units s ! i) \<noteq> U_Done"
    by (auto dest!: upc_SomeD)
  then show ?thesis by (rule busy_pos)
qed

lemma wg_inv_step:
  assumes "wg_inv s" "step a s = Some s'"
  shows "wg_inv s'"
proof (cases a)
  case (UWgDone i)
  from assms(2) have "0 < busy (units s)" unfolding UWgDone by (rule UWgDone_busy)
  with assms UWgDone show ?thesis
    by (clarsimp simp: wg_inv_def live_def set_upc_def busy_done
          split: option.splits unit_pc.splits if_splits dest!: upc_SomeD)
qed (use assms in \<open>clarsimp simp: wg_inv_def live_def set_upc_def add_log_def Let_def busy_keep ret_def
             loop_head_def
             split: option.splits unit_pc.splits post_result.splits if_splits sum.splits variant.splits
                    list.splits watch_pc.splits disp_pc.splits run_pc.splits prod.splits
             dest!: upc_SomeD\<close>)+

lemma wg_inv_exec:
  "exec as s = Some s' \<Longrightarrow> wg_inv s \<Longrightarrow> wg_inv s'"
proof (induction as arbitrary: s)
  case Nil then show ?case by simp
next
  case (Cons a as)
  then show ?case by (auto split: option.splits dest: wg_inv_step)
qed


lemmas step_splits =
  option.splits unit_pc.splits post_result.splits if_splits sum.splits variant.splits
  list.splits watch_pc.splits disp_pc.splits run_pc.splits prod.splits

lemmas step_defs = set_upc_def add_log_def Let_def ret_def loop_head_def

lemma result_stable:
  assumes "step a s = Some s'" "result_of (run s) = Some r"
  shows "result_of (run s') = Some r"
  using assms by (cases a) (clarsimp simp: step_defs split: step_splits)+

lemma result_new:
  assumes "step a s = Some s'" "result_of (run s) = None" "result_of (run s') = Some r"
  shows "(a = RunRecvWait \<and> r = None \<and> waiter s = Wt_Send) \<or>
         (a = RunRecvErr \<and> (\<exists>e. r = Some e \<and> watch s = W_SendErr e))"
  using assms by (cases a) (clarsimp simp: step_defs split: step_splits)+


section \<open>Run\<close>




section \<open>Units of work\<close>

lemma upc_set_upc: "i < length (units s) \<Longrightarrow> upc (set_upc i pc s) i = Some pc"
  by (simp add: upc_def set_upc_def)

lemma unit_step_frame:
  assumes "unit_of a = Some i" "step a s = Some s'"
  shows "run s' = run s \<and> watch s' = watch s \<and> waiter s' = waiter s"
  using assms by (cases a) (clarsimp simp: step_defs split: step_splits)+

lemma unit_failure_step:
  assumes "unit_of a = Some i" "unit_failure a" "step a s = Some s'"
  shows "out s' = out s \<and> (\<exists>m f. logs s' = logs s @ [(Error, m, f)]) \<and>
         (upc s' i = Some U_Unlock \<or> upc s' i = Some U_CloseBody \<or> upc s' i = Some U_WgDone)"
  using assms
  by (cases a) (clarsimp simp: step_defs upc_def split: step_splits)+

lemma leave_exec:
  assumes "upc s i = Some pc" "pc = U_Unlock \<or> pc = U_CloseBody \<or> pc = U_WgDone"
  shows "\<exists>s'. exec (leave i pc) s = Some s' \<and> upc s' i = Some U_Done \<and> out s' = out s \<and>
               run s' = run s \<and> watch s' = watch s \<and> waiter s' = waiter s"
  using assms
  by (auto simp: step_defs upc_def split: step_splits)


text \<open>
  C2: no step of a unit of work touches \<open>Run\<close>, the goroutine of \<open>watchInput\<close> (the only
  sender on \<open>errorStream\<close>) or the goroutine that waits. When the step is one of the
  four failures (transport, status, reading the body, writing the output), it appends
  one \<open>Error\<close> entry to the log, leaves the output file as it is, and the unit of work
  ends: the statements left to it run to \<open>wg.Done()\<close> without writing anything and
  without touching \<open>Run\<close> or the error channel.
\<close>

theorem processLine_failure_not_fatal:
  assumes "unit_of a = Some i" and "step a s = Some s'"
  shows "run s' = run s \<and> watch s' = watch s \<and> waiter s' = waiter s
       \<and> (unit_failure a \<longrightarrow>
            out s' = out s \<and> (\<exists>m f. logs s' = logs s @ [(Error, m, f)]) \<and>
            (\<exists>pc s''. upc s' i = Some pc \<and> exec (leave i pc) s' = Some s'' \<and>
                       upc s'' i = Some U_Done \<and> out s'' = out s \<and> run s'' = run s \<and>
                       watch s'' = watch s \<and> waiter s'' = waiter s))"
proof -
  note fr = unit_step_frame [OF assms]
  have "out s' = out s \<and> (\<exists>m f. logs s' = logs s @ [(Error, m, f)]) \<and>
            (\<exists>pc s''. upc s' i = Some pc \<and> exec (leave i pc) s' = Some s'' \<and>
                       upc s'' i = Some U_Done \<and> out s'' = out s \<and> run s'' = run s \<and>
                       watch s'' = watch s \<and> waiter s'' = waiter s)"
    if f: "unit_failure a"
  proof -
    note us = unit_failure_step [OF assms(1) f assms(2)]
    then obtain pc where pc: "upc s' i = Some pc"
      "pc = U_Unlock \<or> pc = U_CloseBody \<or> pc = U_WgDone" by blast
    from leave_exec [OF pc] obtain s'' where
      "exec (leave i pc) s' = Some s''" "upc s'' i = Some U_Done" "out s'' = out s'"
      "run s'' = run s'" "watch s'' = watch s'" "waiter s'' = waiter s'" by blast
    with us fr pc(1) show ?thesis by auto
  qed
  with fr show ?thesis by blast
qed

theorem processLine_failure_not_fatal_witness:
  "unit_of (UPost 0 (PostErr (OSError ''refused''))) = Some 0
   \<and> unit_failure (UPost 0 (PostErr (OSError ''refused'')))
   \<and> map_option run
        (step (UPost 0 (PostErr (OSError ''refused'')))
           (the (exec dispatch_schedule (init_state EventDriven ''http://rpc'' [] []))))
       = Some R_Select
   \<and> map_option out
        (step (UPost 0 (PostErr (OSError ''refused'')))
           (the (exec dispatch_schedule (init_state EventDriven ''http://rpc'' [] []))))
       = Some []"
proof -
  define s where "s = the (exec dispatch_schedule (init_state EventDriven ''http://rpc'' [] []))"
  define s' where "s' = the (step (UPost 0 (PostErr (OSError ''refused''))) s)"
  note defs = s_def dispatch_schedule_def init_state_def MaxScanTokenSize_def
    fsnotify_Write_def ret_def loop_head_def dropCR_def upc_def set_upc_def add_log_def
  have u: "unit_of (UPost 0 (PostErr (OSError ''refused''))) = Some 0" by simp
  have f: "unit_failure (UPost 0 (PostErr (OSError ''refused'')))" by simp
  have st: "step (UPost 0 (PostErr (OSError ''refused''))) s = Some s'"
    by (simp add: s'_def defs)
  have r: "run s = R_Select" by (simp add: defs)
  have o: "out s = []" by (simp add: defs)
  from processLine_failure_not_fatal [OF u st] f r o
  have "run s' = R_Select \<and> out s' = []" by simp
  with u f st show ?thesis unfolding s_def [symmetric] by simp
qed

section \<open>Shutdown\<close>

lemma exec_append:
  "exec (as @ bs) s = (case exec as s of None \<Rightarrow> None | Some s' \<Rightarrow> exec bs s')"
  by (induction as arbitrary: s) (auto split: option.splits)

lemma no_fatal_step:
  assumes "step a s = Some s'" "a \<noteq> RunRecvErr" "result_of (run s) \<noteq> Some (Some e)"
  shows "result_of (run s') \<noteq> Some (Some e)"
proof (cases "result_of (run s)")
  case None
  with result_new [OF assms(1), of "Some e"] assms(2) show ?thesis by auto
next
  case (Some r)
  with result_stable [OF assms(1)] assms(3) show ?thesis by auto
qed

lemma no_fatal_exec:
  "exec as s = Some s' \<Longrightarrow> RunRecvErr \<notin> set as \<Longrightarrow> result_of (run s) \<noteq> Some (Some e) \<Longrightarrow>
   result_of (run s') \<noteq> Some (Some e)"
proof (induction as arbitrary: s)
  case Nil then show ?case by simp
next
  case (Cons a as)
  then show ?case by (auto split: option.splits dest: no_fatal_step)
qed

lemma fst_update_pc:
  "i < length us \<Longrightarrow> fst (us[j := (fst (us ! j), pc)] ! i) = fst (us ! i)"
  by (cases "i = j") simp_all

lemma units_step:
  assumes "step a s = Some s'" "i < length (units s)"
  shows "i < length (units s') \<and> fst (units s' ! i) = fst (units s ! i)"
  using assms
  by (cases a) (clarsimp simp: step_defs nth_append fst_update_pc split: step_splits)+

lemma units_exec:
  "exec as s = Some s' \<Longrightarrow> i < length (units s) \<Longrightarrow>
   i < length (units s') \<and> fst (units s' ! i) = fst (units s ! i)"
proof (induction as arbitrary: s)
  case Nil then show ?case by simp
next
  case (Cons a as)
  from Cons.prems obtain s1 where 1: "step a s = Some s1" and 2: "exec as s1 = Some s'"
    by (auto split: option.splits)
  from units_step [OF 1 Cons.prems(2)] Cons.IH [OF 2] show ?case by auto
qed

lemma busy_zero: "busy us = 0 \<Longrightarrow> i < length us \<Longrightarrow> snd (us ! i) = U_Done"
  using busy_pos [of i us] by auto

lemma drained_units:
  assumes "wg_inv s" "outcome s = Some None" "i < length (units s)"
  shows "snd (units s ! i) = U_Done"
proof -
  from assms(1,2) have "wg s = 0" by (auto simp: wg_inv_def outcome_def)
  with assms(1) have "busy (units s) = 0" by (auto simp: wg_inv_def live_def)
  then show ?thesis using assms(3) by (rule busy_zero)
qed

text \<open>
  C3 (as stated): when cancellation is requested while units of work are in flight and
  none of them triggers a fatal condition, \<open>Run\<close> terminates only after all of them have
  completed, and returns \<open>nil\<close>. It fails: one line is dispatched and its unit of work
  is about to post; the context is cancelled; the \<open>select\<close> of \<open>watchInput\<close> takes an
  error of the watcher instead of \<open>ctx.Done()\<close> and sends it; \<open>Run\<close> returns this error
  while the unit of work has not even posted.
\<close>

theorem drain_before_return_counterexample:
  "map_option run (exec fatal_schedule (init_state EventDriven ''http://rpc'' [] []))
     = Some (R_Returned (Some (Wrapf ''watcher errors'' (OSError ''inotify''))))
   \<and> map_option units (exec fatal_schedule (init_state EventDriven ''http://rpc'' [] []))
     = Some [(''a'', U_Post)]
   \<and> map_option ctx_done (exec fatal_schedule (init_state EventDriven ''http://rpc'' [] []))
     = Some True"
  by (simp add: fatal_schedule_def dispatch_schedule_def init_state_def MaxScanTokenSize_def
        fsnotify_Write_def ret_def loop_head_def dropCR_def)

text \<open>
  C3 (amended): when cancellation is requested while units of work are in flight and
  \<open>Run\<close> receives no error on the error channel, before or after, then whenever \<open>Run\<close>
  has chosen its result, the result is \<open>nil\<close> and every unit of work that existed at
  the cancellation is still there, with its line, and has completed: cancellation
  aborts none. (Whether \<open>Run\<close> returns at all is not stated.)
\<close>

theorem drain_before_return:
  assumes "exec as1 (init_state v u inp outp) = Some s1"
      and "exec (Cancel # as2) s1 = Some s"
      and "outcome s = Some r"
      and "RunRecvErr \<notin> set as1" and "RunRecvErr \<notin> set as2"
  shows "r = None \<and>
         (\<forall>i < length (units s1). i < length (units s) \<and>
                                  units s ! i = (fst (units s1 ! i), U_Done))"
proof -
  from assms(1,2) have e: "exec (as1 @ Cancel # as2) (init_state v u inp outp) = Some s"
    by (simp add: exec_append)
  have "result_of (run s) \<noteq> Some (Some x)" for x
    using no_fatal_exec [OF e] assms(4,5) by (simp add: init_state_def)
  with assms(3) have r: "r = None" by (cases r) (auto simp: outcome_def)
  have inv: "wg_inv s" using e wg_inv_init by (rule wg_inv_exec)
  have "i < length (units s) \<and> units s ! i = (fst (units s1 ! i), U_Done)"
    if i: "i < length (units s1)" for i
  proof -
    from units_exec [OF assms(2) i] have 1: "i < length (units s)"
      "fst (units s ! i) = fst (units s1 ! i)" by auto
    from drained_units [OF inv _ 1(1)] assms(3) r have "snd (units s ! i) = U_Done" by simp
    with 1 show ?thesis by (simp add: prod_eq_iff)
  qed
  with r show ?thesis by blast
qed

theorem drain_before_return_witness:
  "units (the (exec dispatch_schedule (init_state EventDriven ''http://rpc'' [] [])))
     = [(''a'', U_Post)]
   \<and> map_option outcome
        (exec (Cancel # cancel_schedule)
           (the (exec dispatch_schedule (init_state EventDriven ''http://rpc'' [] []))))
       = Some (Some None)
   \<and> map_option units
        (exec (Cancel # cancel_schedule)
           (the (exec dispatch_schedule (init_state EventDriven ''http://rpc'' [] []))))
       = Some [(''a'', U_Done)]"
proof -
  define s1 where
    "s1 = the (exec dispatch_schedule (init_state EventDriven ''http://rpc'' [] []))"
  define s where "s = the (exec (Cancel # cancel_schedule) s1)"
  note defs = s1_def dispatch_schedule_def cancel_schedule_def init_state_def
    MaxScanTokenSize_def fsnotify_Write_def ret_def loop_head_def dropCR_def upc_def
    set_upc_def add_log_def
  have e1: "exec dispatch_schedule (init_state EventDriven ''http://rpc'' [] []) = Some s1"
    by (simp add: defs)
  have e2: "exec (Cancel # cancel_schedule) s1 = Some s"
    by (simp add: s_def defs)
  have o: "outcome s = Some None"
    by (simp add: s_def defs outcome_def)
  have n1: "RunRecvErr \<notin> set dispatch_schedule" by (simp add: dispatch_schedule_def)
  have n2: "RunRecvErr \<notin> set cancel_schedule" by (simp add: cancel_schedule_def)
  have u1: "units s1 = [(''a'', U_Post)]" by (simp add: defs)
  from drain_before_return [OF e1 e2 o n1 n2] u1
  have "units s ! 0 = (''a'', U_Done)" by simp
  moreover have "length (units s) = 1" by (simp add: s_def defs)
  ultimately have "units s = [(''a'', U_Done)]"
    by (cases "units s") simp_all
  with u1 o e2 show ?thesis unfolding s1_def [symmetric] by simp
qed

section \<open>The output file\<close>

lemma NewFSProxy_output_keeps: "NewFSProxy_output (Some c) None = Inr (c, True)"
  by (simp add: NewFSProxy_output_def)

lemma holders_append [simp]: "holders (us @ vs) = holders us + holders vs"
  by (simp add: holders_def)

lemma holders_single [simp]: "holders [(l, pc)] = (if holding pc then 1 else 0)"
  by (simp add: holders_def)

lemma holders_Cons: "holders (u # vs) = (if holding (snd u) then 1 else 0) + holders vs"
  by (simp add: holders_def)

lemma holders_update:
  "i < length us \<Longrightarrow>
   holders (us[i := (x, pc)]) + (if holding (snd (us ! i)) then 1 else 0)
     = holders us + (if holding pc then 1 else 0)"
proof (induction us arbitrary: i)
  case Nil then show ?case by simp
next
  case (Cons u us)
  show ?case
  proof (cases i)
    case 0 then show ?thesis by (simp add: holders_def)
  next
    case (Suc j)
    with Cons.prems have "j < length us" by simp
    from Cons.IH [OF this] have
      "holders (us[j := (x, pc)]) + (if holding (snd (us ! j)) then 1 else 0)
         = holders us + (if holding pc then 1 else 0)" .
    then show ?thesis using Suc by (simp add: holders_Cons)
  qed
qed

lemma holders_same:
  assumes "i < length us" "holding (snd (us ! i)) = holding pc"
  shows "holders (us[i := (x, pc)]) = holders us"
  using holders_update [OF assms(1), of x pc] assms(2) by (simp split: if_splits)

lemma holders_acquire:
  assumes "i < length us" "\<not> holding (snd (us ! i))" "holding pc"
  shows "holders (us[i := (x, pc)]) = holders us + 1"
  using holders_update [OF assms(1), of x pc] assms(2,3) by simp

lemma holders_release:
  assumes "i < length us" "holding (snd (us ! i))" "\<not> holding pc"
  shows "holders (us[i := (x, pc)]) + 1 = holders us"
  using holders_update [OF assms(1), of x pc] assms(2,3) by simp

lemma holders_pos: "i < length us \<Longrightarrow> holding (snd (us ! i)) \<Longrightarrow> 0 < holders us"
  using holders_update [of i us undefined U_Done] by simp



lemma mutex_inv_step:
  assumes "mutex_inv s" "step a s = Some s'"
  shows "mutex_inv s'"
proof (cases a)
  case (UUnlock i)
  with assms(2) have u: "i < length (units s)" "snd (units s ! i) = U_Unlock"
    and s': "s' = set_upc i U_CloseBody (s\<lparr>outputFileMutex := False\<rparr>)"
    by (auto split: option.splits unit_pc.splits dest!: upc_SomeD)
  from u have h: "holding (snd (units s ! i))" by simp
  from holders_release [OF u(1) h, of U_CloseBody "fst (units s ! i)"] holders_pos [OF u(1) h]
    assms(1)
  show ?thesis by (simp add: s' mutex_inv_def set_upc_def split: if_splits)
qed (use assms in \<open>clarsimp simp: mutex_inv_def step_defs holders_same holders_acquire
        split: step_splits dest!: upc_SomeD\<close>)+

lemma mutex_inv_exec:
  "exec as s = Some s' \<Longrightarrow> mutex_inv s \<Longrightarrow> mutex_inv s'"
proof (induction as arbitrary: s)
  case Nil then show ?case by simp
next
  case (Cons a as)
  then show ?case by (auto split: option.splits dest: mutex_inv_step)
qed














section \<open>Close\<close>

lemma Close_ok_closed:
  assumes "Close w env = (w', None)"
  shows "closed (inputFile w')"
  using assms
  by (auto simp: Close_def File_Close_def Watcher_Close_def
           split: prod.splits option.splits if_splits)

text \<open>
  C9 (as stated): a second \<open>Close\<close> after a first successful \<open>Close\<close> still returns no
  error. It fails: on the freshly opened proxy, with an operating system that never
  fails, the first \<open>Close\<close> succeeds and the second one returns an error.
\<close>

theorem Close_twice_counterexample:
  "snd (Close (open_handles ''dev/rpcin'' ''dev/rpcout'') no_errors) = None \<and>
   snd (Close (fst (Close (open_handles ''dev/rpcin'' ''dev/rpcout'') no_errors)) no_errors)
     = Some (Wrapf ''close input file'' (PathError ''close'' ''dev/rpcin'' ErrClosed))"
  by (simp add: Close_def File_Close_def Watcher_Close_def open_handles_def no_errors_def)

text \<open>
  C9 (amended): after a first successful \<open>Close\<close>, a second \<open>Close\<close> releases nothing
  further (the handles are unchanged) and returns the error
  \<open>close input file: close <path>: file already closed\<close>, whatever the operating
  system would answer; \<open>Proxy.closeFiles\<close>, which returns nothing, then logs the two
  failures and leaves the handles unchanged as well.
\<close>

theorem Close_twice:
  assumes "Close w env = (w', None)"
  shows "Close w' env' =
           (w', Some (Wrapf ''close input file''
                        (PathError ''close'' (name (inputFile w')) ErrClosed)))
         \<and> closeFiles w' env' =
           (w', [(Error, ''Failed to close input file'',
                    FError (Some (PathError ''close'' (name (inputFile w')) ErrClosed))),
                 (Error, ''Failed to close output file'',
                    FError (Some (PathError ''close'' (name (outputFile w')) ErrClosed)))])"
  using assms
  by (auto simp: Close_def closeFiles_def File_Close_def Watcher_Close_def
           split: prod.splits option.splits if_splits)

theorem Close_twice_witness:
  "Close (open_handles ''in'' ''out'') no_errors
     = (\<lparr>inputFile = \<lparr>name = ''in'', closed = True\<rparr>,
         outputFile = \<lparr>name = ''out'', closed = True\<rparr>,
         watcher = \<lparr>wclosed = True\<rparr>\<rparr>, None)
   \<and> snd (Close \<lparr>inputFile = \<lparr>name = ''in'', closed = True\<rparr>,
                  outputFile = \<lparr>name = ''out'', closed = True\<rparr>,
                  watcher = \<lparr>wclosed = True\<rparr>\<rparr> no_errors)
     = Some (Wrapf ''close input file'' (PathError ''close'' ''in'' ErrClosed))"
proof -
  have h: "Close (open_handles ''in'' ''out'') no_errors
     = (\<lparr>inputFile = \<lparr>name = ''in'', closed = True\<rparr>,
         outputFile = \<lparr>name = ''out'', closed = True\<rparr>,
         watcher = \<lparr>wclosed = True\<rparr>\<rparr>, None)"
    by (simp add: Close_def File_Close_def Watcher_Close_def open_handles_def no_errors_def)
  show ?thesis using h Close_twice [OF h, of no_errors] by simp
qed

end
